theory Spec2Isabelle
  imports Main
begin

section \<open>The user record and the user store\<close>

text \<open>
  The account routes (\<^verbatim>\<open>router.post('/login')\<close>, \<^verbatim>\<open>'/2fa/setup'\<close>, \<^verbatim>\<open>'/2fa/verify'\<close>,
  \<^verbatim>\<open>'/2fa/validate'\<close>, \<^verbatim>\<open>'/2fa/disable'\<close>, \<^verbatim>\<open>'/2fa/backup'\<close>) read and write the
  sub-document \<^verbatim>\<open>user.securitySettings\<close>. A field that JavaScript leaves
  \<^verbatim>\<open>undefined\<close> is \<open>None\<close>.
\<close>

record securitySettings =
  twoFactorEnabled :: bool
  twoFactorSecret :: "string option"
  twoFactorBackupCodes :: "string list option"

record user =
  uid :: nat
  username :: string
  email :: string
  password :: string
  role :: string
  isEmailVerified :: bool
  securitySettings :: securitySettings

text \<open>
  The collection of user documents. \<^verbatim>\<open>User.findOne({ email })\<close> and
  \<^verbatim>\<open>User.findById(id)\<close> return the first matching document or \<^verbatim>\<open>null\<close>;
  \<^verbatim>\<open>user.save()\<close> writes the document back under its \<^verbatim>\<open>_id\<close>.
\<close>

type_synonym db = "user list"

definition findOne :: "db \<Rightarrow> string \<Rightarrow> user option" where
  "findOne d e = find (\<lambda>v. email v = e) d"

definition findById :: "db \<Rightarrow> nat \<Rightarrow> user option" where
  "findById d i = find (\<lambda>v. uid v = i) d"

definition save :: "db \<Rightarrow> user \<Rightarrow> db" where
  "save d u = map (\<lambda>v. if uid v = uid u then u else v) d"

section \<open>Responses\<close>

text \<open>
  The object every successful sign-in returns beside the token:
  \<^verbatim>\<open>{ id, username, email, role, isEmailVerified }\<close>.
\<close>

record userSummary =
  sum_id :: nat
  sum_username :: string
  sum_email :: string
  sum_role :: string
  sum_isEmailVerified :: bool

definition summary :: "user \<Rightarrow> userSummary" where
  "summary u = \<lparr> sum_id = uid u, sum_username = username u, sum_email = email u,
     sum_role = role u, sum_isEmailVerified = isEmailVerified u \<rparr>"

text \<open>
  The JSON bodies the routes send: \<^verbatim>\<open>{ message }\<close>, \<^verbatim>\<open>{ require2FA: true, email }\<close>,
  \<^verbatim>\<open>{ token, user }\<close> and \<^verbatim>\<open>{ qrCode, backupCodes, secret }\<close>. A response is the
  HTTP status with the body (\<^verbatim>\<open>res.json\<close> alone sends status 200).
\<close>

datatype body =
    Message string
  | Require2FA string
  | Session string userSummary
  | SetupResult string "string list" string

type_synonym response = "nat \<times> body"

fun message_of :: "body \<Rightarrow> string option" where
  "message_of (Message m) = Some m"
| "message_of (Require2FA e) = None"
| "message_of (Session t s) = None"
| "message_of (SetupResult q c s) = None"

fun token_of :: "body \<Rightarrow> string option" where
  "token_of (Message m) = None"
| "token_of (Require2FA e) = None"
| "token_of (Session t s) = Some t"
| "token_of (SetupResult q c s) = None"

section \<open>The collaborators the routes call\<close>

text \<open>
  \<^verbatim>\<open>../utils/twoFactorAuth\<close>, \<^verbatim>\<open>../models/User\<close> and the \<^verbatim>\<open>jsonwebtoken\<close> library
  are not among the sources; what the routes call of them is a parameter. The values
  that \<^verbatim>\<open>generateSecret\<close>, \<^verbatim>\<open>generateBackupCodes\<close> and \<^verbatim>\<open>jwt.sign\<close> draw at random or
  from the clock, and the clock \<^verbatim>\<open>verifyToken\<close> reads, are those of the request at hand.
  \<open>decrypt2FASecret\<close> receives the stored field as the route passes it (\<open>None\<close> for
  \<^verbatim>\<open>undefined\<close>) and returns \<open>None\<close> where the call throws (the CryptoError of spec
  4.2). The other collaborators are taken to return a value, as spec 4.1 and 4.3
  describe the generators; the persistence layer is taken to complete every
  \<^verbatim>\<open>save\<close>.
\<close>

record helpers =
  comparePassword :: "user \<Rightarrow> string \<Rightarrow> bool"
  jwt_sign :: "nat \<Rightarrow> string"
  generateSecret :: "string \<Rightarrow> string \<times> string"
  generateQRCode :: "string \<Rightarrow> string"
  generateBackupCodes :: "string list"
  encrypt2FASecret :: "string \<Rightarrow> string"
  decrypt2FASecret :: "string option \<Rightarrow> string option"
  verifyToken :: "string \<Rightarrow> string \<Rightarrow> bool"

section \<open>The routes\<close>

text \<open>
  Each route takes the collaborators, the store and the request, and returns the
  response with the store after the request. A route behind the \<^verbatim>\<open>auth\<close> middleware
  takes the identifier \<^verbatim>\<open>req.user._id\<close>. An exception inside \<^verbatim>\<open>try\<close> is the
  response 500 \<^verbatim>\<open>Server error\<close> of the \<^verbatim>\<open>catch\<close> block, sent before anything was
  saved.
\<close>

definition serverError :: response where
  "serverError = (500, Message ''Server error'')"

definition sessionFor :: "helpers \<Rightarrow> user \<Rightarrow> response" where
  "sessionFor h u = (200, Session (jwt_sign h (uid u)) (summary u))"

definition post_login :: "helpers \<Rightarrow> db \<Rightarrow> string \<Rightarrow> string \<Rightarrow> response \<times> db" where
  "post_login h d em pw =
     (case findOne d em of
        None \<Rightarrow> ((401, Message ''Invalid credentials''), d)
      | Some u \<Rightarrow>
          if \<not> comparePassword h u pw then ((401, Message ''Invalid credentials''), d)
          else if twoFactorEnabled (securitySettings u) then ((200, Require2FA (email u)), d)
          else (sessionFor h u, d))"

definition post_2fa_setup :: "helpers \<Rightarrow> db \<Rightarrow> nat \<Rightarrow> response \<times> db" where
  "post_2fa_setup h d authId =
     (case findById d authId of
        None \<Rightarrow> ((404, Message ''User not found''), d)
      | Some u \<Rightarrow>
          (case generateSecret h (email u) of
             (secret, otpauth_url) \<Rightarrow>
               let qrCode = generateQRCode h otpauth_url;
                   backupCodes = generateBackupCodes h;
                   u' = u\<lparr>securitySettings := (securitySettings u)
                          \<lparr>twoFactorSecret := Some (encrypt2FASecret h secret),
                           twoFactorBackupCodes := Some backupCodes\<rparr>\<rparr>
               in ((200, SetupResult qrCode backupCodes secret), save d u')))"

definition post_2fa_verify :: "helpers \<Rightarrow> db \<Rightarrow> nat \<Rightarrow> string \<Rightarrow> response \<times> db" where
  "post_2fa_verify h d authId token =
     (case findById d authId of
        None \<Rightarrow> ((404, Message ''User not found''), d)
      | Some u \<Rightarrow>
          (case decrypt2FASecret h (twoFactorSecret (securitySettings u)) of
             None \<Rightarrow> (serverError, d)
           | Some secret \<Rightarrow>
               if \<not> verifyToken h token secret
               then ((400, Message ''Invalid verification code''), d)
               else ((200, Message ''2FA enabled successfully''),
                     save d (u\<lparr>securitySettings := (securitySettings u)
                               \<lparr>twoFactorEnabled := True\<rparr>\<rparr>))))"

definition post_2fa_validate :: "helpers \<Rightarrow> db \<Rightarrow> string \<Rightarrow> string \<Rightarrow> response \<times> db" where
  "post_2fa_validate h d em token =
     (case findOne d em of
        None \<Rightarrow> ((400, Message ''Invalid request''), d)
      | Some u \<Rightarrow>
          if \<not> twoFactorEnabled (securitySettings u)
          then ((400, Message ''Invalid request''), d)
          else
            (case decrypt2FASecret h (twoFactorSecret (securitySettings u)) of
               None \<Rightarrow> (serverError, d)
             | Some secret \<Rightarrow>
                 if \<not> verifyToken h token secret
                 then ((400, Message ''Invalid verification code''), d)
                 else (sessionFor h u, d)))"

definition post_2fa_disable :: "helpers \<Rightarrow> db \<Rightarrow> nat \<Rightarrow> string \<Rightarrow> response \<times> db" where
  "post_2fa_disable h d authId token =
     (case findById d authId of
        None \<Rightarrow> ((404, Message ''User not found''), d)
      | Some u \<Rightarrow>
          (case decrypt2FASecret h (twoFactorSecret (securitySettings u)) of
             None \<Rightarrow> (serverError, d)
           | Some secret \<Rightarrow>
               if \<not> verifyToken h token secret
               then ((400, Message ''Invalid verification code''), d)
               else ((200, Message ''2FA disabled successfully''),
                     save d (u\<lparr>securitySettings := (securitySettings u)
                               \<lparr>twoFactorEnabled := False,
                                twoFactorSecret := None,
                                twoFactorBackupCodes := None\<rparr>\<rparr>))))"

text \<open>
  \<^verbatim>\<open>twoFactorBackupCodes.includes(backupCode)\<close> on an absent array throws a TypeError,
  which the \<^verbatim>\<open>catch\<close> block answers.
\<close>

definition post_2fa_backup :: "helpers \<Rightarrow> db \<Rightarrow> string \<Rightarrow> string \<Rightarrow> response \<times> db" where
  "post_2fa_backup h d em backupCode =
     (case findOne d em of
        None \<Rightarrow> ((400, Message ''Invalid request''), d)
      | Some u \<Rightarrow>
          if \<not> twoFactorEnabled (securitySettings u)
          then ((400, Message ''Invalid request''), d)
          else
            (case twoFactorBackupCodes (securitySettings u) of
               None \<Rightarrow> (serverError, d)
             | Some codes \<Rightarrow>
                 if backupCode \<notin> set codes
                 then ((400, Message ''Invalid backup code''), d)
                 else
                   (let u' = u\<lparr>securitySettings := (securitySettings u)
                               \<lparr>twoFactorBackupCodes :=
                                  Some (filter (\<lambda>code. code \<noteq> backupCode) codes)\<rparr>\<rparr>
                    in (sessionFor h u', save d u'))))"

section \<open>Requests as data\<close>

text \<open>
  The six routes that read or write \<^verbatim>\<open>securitySettings\<close>, as one step function on the
  store. The other routes of the file (register, verify-email, forgot-password,
  reset-password, profile, change-password) assign none of its fields.
\<close>

datatype request =
    Login string string
  | Setup nat
  | Verify nat string
  | Validate string string
  | Disable nat string
  | Backup string string

fun route :: "helpers \<Rightarrow> db \<Rightarrow> request \<Rightarrow> response \<times> db" where
  "route h d (Login em pw) = post_login h d em pw"
| "route h d (Setup authId) = post_2fa_setup h d authId"
| "route h d (Verify authId token) = post_2fa_verify h d authId token"
| "route h d (Validate em token) = post_2fa_validate h d em token"
| "route h d (Disable authId token) = post_2fa_disable h d authId token"
| "route h d (Backup em backupCode) = post_2fa_backup h d em backupCode"

section \<open>A concrete store and concrete collaborators\<close>

text \<open>
  Two accounts, one with 2FA enabled and one that never ran setup, and stand-ins for
  the collaborators: the stored secret is the plain one behind a marker character, and
  the code the verifier accepts is fixed.
\<close>

definition alice :: user where
  "alice = \<lparr> uid = 1, username = ''alice'', email = ''alice@example.com'',
     password = ''pw-a'', role = ''user'', isEmailVerified = True,
     securitySettings = \<lparr> twoFactorEnabled = True, twoFactorSecret = Some ''#S1'',
       twoFactorBackupCodes = Some [''c1'', ''c2'', ''c3''] \<rparr> \<rparr>"

definition bob :: user where
  "bob = \<lparr> uid = 2, username = ''bob'', email = ''bob@example.com'',
     password = ''pw-b'', role = ''user'', isEmailVerified = False,
     securitySettings = \<lparr> twoFactorEnabled = False, twoFactorSecret = None,
       twoFactorBackupCodes = Some [] \<rparr> \<rparr>"

definition db0 :: db where
  "db0 = [alice, bob]"

definition stub :: helpers where
  "stub = \<lparr> comparePassword = (\<lambda>u pw. pw = password u),
     jwt_sign = (\<lambda>i. ''jwt''),
     generateSecret = (\<lambda>e. (''S2'', ''otpauth:S2'')),
     generateQRCode = (\<lambda>url. ''qr''),
     generateBackupCodes = [''n1'', ''n2'', ''n3'', ''n4'', ''n5'', ''n6'', ''n7'', ''n8''],
     encrypt2FASecret = (\<lambda>s. CHR ''#'' # s),
     decrypt2FASecret = (\<lambda>b. case b of
         None \<Rightarrow> None
       | Some [] \<Rightarrow> None
       | Some (c # cs) \<Rightarrow> if c = CHR ''#'' then Some cs else None),
     verifyToken = (\<lambda>token secret. token = ''123456'') \<rparr>"

text \<open>
  The same collaborators with a codec that never throws: it hands back the stored
  text, and the empty string for an absent field.
\<close>

definition lenient :: helpers where
  "lenient = stub\<lparr> decrypt2FASecret := (\<lambda>b. case b of None \<Rightarrow> Some [] | Some c \<Rightarrow> Some c) \<rparr>"

text \<open>A user whose stored secret the codec of \<open>stub\<close> refuses.\<close>

definition dave :: user where
  "dave = \<lparr> uid = 3, username = ''dave'', email = ''dave@example.com'',
     password = ''pw-c'', role = ''user'', isEmailVerified = True,
     securitySettings = \<lparr> twoFactorEnabled = False, twoFactorSecret = Some ''bad'',
       twoFactorBackupCodes = Some [] \<rparr> \<rparr>"

section \<open>The TOTP verifier\<close>

text \<open>
  Modelled from the spec: \<^verbatim>\<open>twoFactorAuth.verifyToken\<close> is called by the routes and is
  not among the sources. Spec 4.4 gives the step length: \<open>stepSeconds = 30\<close>, the
  standard default.
\<close>

definition stepSeconds :: int where
  "stepSeconds = 30"

text \<open>
  Modelled from the spec: the counter value, not among the sources, is
  \<open>floor(atTime / stepSeconds)\<close> (spec 4.4). Division on \<open>int\<close> rounds down.
\<close>

definition counter :: "int \<Rightarrow> int" where
  "counter atTime = atTime div stepSeconds"

text \<open>
  Modelled from the spec: the counters the verifier checks, not among the sources, are
  the current counter and the immediately adjacent ones, one step either way (spec 4.4).
\<close>

definition window :: "int \<Rightarrow> int list" where
  "window atTime = [counter atTime - 1, counter atTime, counter atTime + 1]"

text \<open>
  Modelled from the spec: \<open>code_at(t)\<close> of spec 8, not among the sources, is the code
  derived by the keyed one-way function from the secret and the counter of the time step
  that contains \<open>t\<close>. The keyed function is the parameter \<open>f\<close>.
\<close>

definition code_at :: "('s \<Rightarrow> int \<Rightarrow> 'c) \<Rightarrow> 's \<Rightarrow> int \<Rightarrow> 'c" where
  "code_at f secret t = f secret (counter t)"

text \<open>
  Modelled from the spec: \<open>verify(submittedCode, secret, atTime)\<close>, not among the
  sources, compares the submitted code with the expected code of each checked counter;
  exactly one of these three must match for acceptance (spec 4.4).
\<close>

definition verify :: "('s \<Rightarrow> int \<Rightarrow> 'c) \<Rightarrow> 'c \<Rightarrow> 's \<Rightarrow> int \<Rightarrow> bool" where
  "verify f submittedCode secret atTime =
     (length (filter (\<lambda>c. f secret c = submittedCode) (window atTime)) = 1)"

text \<open>
  Two keyed functions for concrete runs, both with finitely many codes. \<open>ten_codes\<close>
  repeats every ten counters, so the codes of seven counters in a row differ;
  \<open>two_codes\<close> repeats every two counters.
\<close>

definition ten_codes :: "string \<Rightarrow> int \<Rightarrow> string" where
  "ten_codes secret c = secret @ replicate (nat (c mod 10)) (CHR ''1'')"

definition two_codes :: "string \<Rightarrow> int \<Rightarrow> string" where
  "two_codes secret c = secret @ replicate (nat (c mod 2)) (CHR ''1'')"

section \<open>Facts about the store\<close>

lemma findOne_save:
  "findOne d e = Some u \<Longrightarrow> email u' = e \<Longrightarrow> uid u' = uid u \<Longrightarrow> findOne (save d u') e = Some u'"
  unfolding findOne_def save_def
  by (induction d) (auto split: if_splits)

lemma findById_save:
  "findById (save d w) i =
     (if uid w = i then (case findById d i of None \<Rightarrow> None | Some x \<Rightarrow> Some w) else findById d i)"
  unfolding findById_def save_def
  by (induction d) auto

lemma findOne_email: "findOne d e = Some u \<Longrightarrow> email u = e"
  unfolding findOne_def by (auto simp: find_Some_iff)

lemma findById_uid: "findById d i = Some u \<Longrightarrow> uid u = i"
  unfolding findById_def by (auto simp: find_Some_iff)

lemma findOne_mem: "findOne d e = Some u \<Longrightarrow> u \<in> set d"
  unfolding findOne_def by (auto simp: find_Some_iff)

lemma findById_mem: "findById d i = Some u \<Longrightarrow> u \<in> set d"
  unfolding findById_def by (auto simp: find_Some_iff)

lemma distinct_uid_eq:
  "distinct (map uid d) \<Longrightarrow> u \<in> set d \<Longrightarrow> v \<in> set d \<Longrightarrow> uid u = uid v \<Longrightarrow> u = v"
  by (auto simp: distinct_map dest: inj_onD)

lemma filter_absent: "c \<notin> set cs \<Longrightarrow> filter (\<lambda>code. code \<noteq> c) cs = cs"
  by (induction cs) auto

lemma filter_count1:
  "count_list cs c = 1 \<Longrightarrow> Suc (length (filter (\<lambda>code. code \<noteq> c) cs)) = length cs"
  by (induction cs) (auto split: if_splits simp: count_list_0_iff filter_absent)

lemma count1_mem: "count_list cs c = 1 \<Longrightarrow> c \<in> set cs"
  by (metis count_list_0_iff zero_neq_one)

section \<open>Backup codes are single-use\<close>

text \<open>
  C1. For a user with 2FA enabled whose stored backup codes hold the code \<open>c\<close> exactly
  once, \<^verbatim>\<open>POST /2fa/backup\<close> with \<open>c\<close> answers with a session and stores the codes
  without \<open>c\<close>: one entry fewer, the other codes kept. The same request on the store
  it leaves is answered 400 \<^verbatim>\<open>Invalid backup code\<close> and changes nothing. Whatever code
  is submitted, the stored codes afterwards are among the ones before and no more
  numerous.
\<close>

theorem backup_code_single_use:
  assumes found: "findOne d em = Some u"
    and enabled: "twoFactorEnabled (securitySettings u)"
    and codes: "twoFactorBackupCodes (securitySettings u) = Some cs"
    and once: "count_list cs c = 1"
  shows "\<exists>u' cs' d'.
           post_2fa_backup h d em c = (sessionFor h u', d') \<and>
           findOne d' em = Some u' \<and>
           twoFactorBackupCodes (securitySettings u') = Some cs' \<and>
           cs' = filter (\<lambda>code. code \<noteq> c) cs \<and>
           c \<notin> set cs' \<and> set cs' = set cs - {c} \<and>
           Suc (length cs') = length cs \<and>
           twoFactorEnabled (securitySettings u') \<and>
           twoFactorSecret (securitySettings u') = twoFactorSecret (securitySettings u) \<and>
           post_2fa_backup h d' em c = ((400, Message ''Invalid backup code''), d') \<and>
           (\<forall>x. \<exists>v xs. findOne (snd (post_2fa_backup h d em x)) em = Some v \<and>
                twoFactorBackupCodes (securitySettings v) = Some xs \<and>
                length xs \<le> length cs \<and> set xs \<subseteq> set cs)"
proof -
  define cs' where "cs' = filter (\<lambda>code. code \<noteq> c) cs"
  define u' where "u' = u\<lparr>securitySettings := (securitySettings u)\<lparr>twoFactorBackupCodes := Some cs'\<rparr>\<rparr>"
  define d' where "d' = save d u'"
  have mem: "c \<in> set cs" using once by (rule count1_mem)
  have first: "post_2fa_backup h d em c = (sessionFor h u', d')"
    using found enabled codes mem
    by (simp add: post_2fa_backup_def u'_def d'_def cs'_def Let_def)
  have em: "email u = em" using found by (rule findOne_email)
  have found': "findOne d' em = Some u'"
    unfolding d'_def using found by (rule findOne_save) (simp_all add: u'_def em)
  have notin: "c \<notin> set cs'" by (simp add: cs'_def)
  have second: "post_2fa_backup h d' em c = ((400, Message ''Invalid backup code''), d')"
    using found' enabled notin by (simp add: post_2fa_backup_def u'_def)
  have len: "Suc (length cs') = length cs"
    unfolding cs'_def using once by (rule filter_count1)
  have set_eq: "set cs' = set cs - {c}" by (auto simp: cs'_def)
  have shrink: "\<exists>v xs. findOne (snd (post_2fa_backup h d em x)) em = Some v \<and>
                twoFactorBackupCodes (securitySettings v) = Some xs \<and>
                length xs \<le> length cs \<and> set xs \<subseteq> set cs" for x
  proof (cases "x \<in> set cs")
    case True
    define w where "w = u\<lparr>securitySettings := (securitySettings u)
           \<lparr>twoFactorBackupCodes := Some (filter (\<lambda>code. code \<noteq> x) cs)\<rparr>\<rparr>"
    have "post_2fa_backup h d em x = (sessionFor h w, save d w)"
      using found enabled codes True by (simp add: post_2fa_backup_def w_def Let_def)
    moreover have "findOne (save d w) em = Some w"
      using found by (rule findOne_save) (simp_all add: w_def em)
    ultimately show ?thesis by (auto simp: w_def)
  next
    case False
    then have "post_2fa_backup h d em x = ((400, Message ''Invalid backup code''), d)"
      using found enabled codes by (simp add: post_2fa_backup_def)
    then show ?thesis using found codes by simp
  qed
  show ?thesis
    using first found' second len set_eq enabled shrink
    by (intro exI[of _ u'] exI[of _ cs'] exI[of _ d']) (simp add: u'_def cs'_def)
qed

theorem backup_code_single_use_witness:
  "findOne db0 ''alice@example.com'' = Some alice \<and>
   twoFactorEnabled (securitySettings alice) \<and>
   twoFactorBackupCodes (securitySettings alice) = Some [''c1'', ''c2'', ''c3''] \<and>
   count_list [''c1'', ''c2'', ''c3''] ''c2'' = 1 \<and>
   (\<exists>u' d'. post_2fa_backup stub db0 ''alice@example.com'' ''c2'' = (sessionFor stub u', d') \<and>
      twoFactorBackupCodes (securitySettings u') = Some [''c1'', ''c3''] \<and>
      post_2fa_backup stub d' ''alice@example.com'' ''c2'' =
        ((400, Message ''Invalid backup code''), d'))"
proof -
  have a: "findOne db0 ''alice@example.com'' = Some alice"
    by (simp add: findOne_def db0_def alice_def)
  have b: "twoFactorEnabled (securitySettings alice)"
    by (simp add: alice_def)
  have c: "twoFactorBackupCodes (securitySettings alice) = Some [''c1'', ''c2'', ''c3'']"
    by (simp add: alice_def)
  have e: "count_list [''c1'', ''c2'', ''c3''] ''c2'' = 1"
    by simp
  from backup_code_single_use [OF a b c e, of stub] obtain u' cs' d' where
    "post_2fa_backup stub db0 ''alice@example.com'' ''c2'' = (sessionFor stub u', d')"
    "twoFactorBackupCodes (securitySettings u') = Some cs'"
    "cs' = filter (\<lambda>code. code \<noteq> ''c2'') [''c1'', ''c2'', ''c3'']"
    "post_2fa_backup stub d' ''alice@example.com'' ''c2'' =
        ((400, Message ''Invalid backup code''), d')"
    by blast
  then show ?thesis using a b c e by auto
qed

section \<open>Login\<close>

text \<open>
  C3. \<^verbatim>\<open>POST /login\<close> with the email of a stored user and a password that
  \<^verbatim>\<open>comparePassword\<close> accepts has two outcomes and no other: with
  \<^verbatim>\<open>twoFactorEnabled\<close> set the response is \<^verbatim>\<open>{ require2FA: true, email }\<close>, which
  carries no token; otherwise it is the session response with the signed token. The
  store is not written.
\<close>

theorem login_valid_credentials:
  assumes found: "findOne d em = Some u"
    and pw: "comparePassword h u pw"
  shows "snd (post_login h d em pw) = d \<and>
         (if twoFactorEnabled (securitySettings u)
          then fst (post_login h d em pw) = (200, Require2FA em) \<and>
               token_of (snd (fst (post_login h d em pw))) = None
          else fst (post_login h d em pw) = (200, Session (jwt_sign h (uid u)) (summary u)) \<and>
               token_of (snd (fst (post_login h d em pw))) = Some (jwt_sign h (uid u)))"
proof -
  have "email u = em" using found by (rule findOne_email)
  then show ?thesis
    using found pw by (simp add: post_login_def sessionFor_def)
qed

theorem login_valid_credentials_witness:
  "findOne db0 ''alice@example.com'' = Some alice \<and> comparePassword stub alice ''pw-a'' \<and>
   fst (post_login stub db0 ''alice@example.com'' ''pw-a'') = (200, Require2FA ''alice@example.com'') \<and>
   findOne db0 ''bob@example.com'' = Some bob \<and> comparePassword stub bob ''pw-b'' \<and>
   token_of (snd (fst (post_login stub db0 ''bob@example.com'' ''pw-b''))) = Some ''jwt''"
proof -
  have a: "findOne db0 ''alice@example.com'' = Some alice"
    by (simp add: findOne_def db0_def alice_def)
  have pa: "comparePassword stub alice ''pw-a''"
    by (simp add: stub_def alice_def)
  have b: "findOne db0 ''bob@example.com'' = Some bob"
    by (simp add: findOne_def db0_def alice_def bob_def)
  have pb: "comparePassword stub bob ''pw-b''"
    by (simp add: stub_def bob_def)
  have ea: "twoFactorEnabled (securitySettings alice)" by (simp add: alice_def)
  have eb: "\<not> twoFactorEnabled (securitySettings bob)" by (simp add: bob_def)
  have js: "jwt_sign stub (uid bob) = ''jwt''" by (simp add: stub_def)
  show ?thesis
    using login_valid_credentials [OF a pa] login_valid_credentials [OF b pb] a pa b pb ea eb js
    by simp
qed

text \<open>
  C8. A \<^verbatim>\<open>POST /login\<close> that names an email with no user record and one that names a
  stored user with a password \<^verbatim>\<open>comparePassword\<close> rejects receive the same response:
  status 401 with the message \<^verbatim>\<open>Invalid credentials\<close>.
\<close>

theorem login_failures_identical:
  assumes missing: "findOne d e1 = None"
    and found: "findOne d e2 = Some u"
    and wrong: "\<not> comparePassword h u p2"
  shows "fst (post_login h d e1 p1) = fst (post_login h d e2 p2) \<and>
         fst (post_login h d e1 p1) = (401, Message ''Invalid credentials'')"
  using missing found wrong by (simp add: post_login_def)

theorem login_failures_identical_witness:
  "findOne db0 ''carol@example.com'' = None \<and>
   findOne db0 ''alice@example.com'' = Some alice \<and>
   \<not> comparePassword stub alice ''guess'' \<and>
   fst (post_login stub db0 ''carol@example.com'' ''x'') =
     fst (post_login stub db0 ''alice@example.com'' ''guess'')"
proof -
  have m: "findOne db0 ''carol@example.com'' = None"
    by (simp add: findOne_def db0_def alice_def bob_def)
  have a: "findOne db0 ''alice@example.com'' = Some alice"
    by (simp add: findOne_def db0_def alice_def)
  have w: "\<not> comparePassword stub alice ''guess''"
    by (simp add: stub_def alice_def)
  show ?thesis
    using login_failures_identical [OF m a w, of "''x''"] m a w by simp
qed

section \<open>Disabling 2FA\<close>

text \<open>
  C4. When the secret of the signed-in user decrypts and \<^verbatim>\<open>verifyToken\<close> rejects the
  submitted code, \<^verbatim>\<open>POST /2fa/disable\<close> answers 400 \<^verbatim>\<open>Invalid verification code\<close> and
  the store is the one before the request, so \<^verbatim>\<open>twoFactorEnabled\<close>,
  \<^verbatim>\<open>twoFactorSecret\<close> and \<^verbatim>\<open>twoFactorBackupCodes\<close> are as they were. More generally
  the route writes nothing unless it answers 200.
\<close>

theorem disable_rejected_changes_nothing:
  assumes found: "findById d i = Some u"
    and enabled: "twoFactorEnabled (securitySettings u)"
    and secret: "decrypt2FASecret h (twoFactorSecret (securitySettings u)) = Some s"
    and invalid: "\<not> verifyToken h token s"
  shows "post_2fa_disable h d i token = ((400, Message ''Invalid verification code''), d) \<and>
         findById (snd (post_2fa_disable h d i token)) i = Some u \<and>
         (\<forall>x. fst (fst (post_2fa_disable h d i x)) = 200 \<or> snd (post_2fa_disable h d i x) = d)"
proof -
  have first: "post_2fa_disable h d i token = ((400, Message ''Invalid verification code''), d)"
    using found secret invalid by (simp add: post_2fa_disable_def)
  have "fst (fst (post_2fa_disable h d i x)) = 200 \<or> snd (post_2fa_disable h d i x) = d" for x
    using found secret by (simp add: post_2fa_disable_def)
  then show ?thesis using first found by simp
qed

theorem disable_rejected_changes_nothing_witness:
  "findById db0 1 = Some alice \<and> twoFactorEnabled (securitySettings alice) \<and>
   decrypt2FASecret stub (twoFactorSecret (securitySettings alice)) = Some ''S1'' \<and>
   \<not> verifyToken stub ''000000'' ''S1'' \<and>
   post_2fa_disable stub db0 1 ''000000'' = ((400, Message ''Invalid verification code''), db0)"
proof -
  have a: "findById db0 1 = Some alice"
    by (simp add: findById_def db0_def alice_def)
  have b: "twoFactorEnabled (securitySettings alice)"
    by (simp add: alice_def)
  have c: "decrypt2FASecret stub (twoFactorSecret (securitySettings alice)) = Some ''S1''"
    by (simp add: stub_def alice_def)
  have e: "\<not> verifyToken stub ''000000'' ''S1''"
    by (simp add: stub_def)
  show ?thesis
    using disable_rejected_changes_nothing [OF a b c e] a b c e by simp
qed

text \<open>
  C5. When the secret of the signed-in user decrypts and \<^verbatim>\<open>verifyToken\<close> accepts the
  submitted code, \<^verbatim>\<open>POST /2fa/disable\<close> answers 200 and the stored user has
  \<^verbatim>\<open>twoFactorEnabled\<close> false and \<^verbatim>\<open>twoFactorSecret\<close> and \<^verbatim>\<open>twoFactorBackupCodes\<close>
  absent; the other fields of the user are kept.
\<close>

theorem disable_accepted_clears_settings:
  assumes found: "findById d i = Some u"
    and enabled: "twoFactorEnabled (securitySettings u)"
    and secret: "decrypt2FASecret h (twoFactorSecret (securitySettings u)) = Some s"
    and valid: "verifyToken h token s"
  shows "fst (post_2fa_disable h d i token) = (200, Message ''2FA disabled successfully'') \<and>
         findById (snd (post_2fa_disable h d i token)) i =
           Some (u\<lparr>securitySettings :=
                  \<lparr>twoFactorEnabled = False, twoFactorSecret = None,
                   twoFactorBackupCodes = None\<rparr>\<rparr>)"
proof -
  define u' where "u' = u\<lparr>securitySettings := (securitySettings u)
      \<lparr>twoFactorEnabled := False, twoFactorSecret := None, twoFactorBackupCodes := None\<rparr>\<rparr>"
  have run: "post_2fa_disable h d i token = ((200, Message ''2FA disabled successfully''), save d u')"
    using found secret valid by (simp add: post_2fa_disable_def u'_def)
  have "uid u = i" using found by (rule findById_uid)
  then have "findById (save d u') i = Some u'"
    using found by (simp add: findById_save u'_def)
  then show ?thesis using run by (simp add: u'_def)
qed

theorem disable_accepted_clears_settings_witness:
  "findById db0 1 = Some alice \<and> twoFactorEnabled (securitySettings alice) \<and>
   decrypt2FASecret stub (twoFactorSecret (securitySettings alice)) = Some ''S1'' \<and>
   verifyToken stub ''123456'' ''S1'' \<and>
   findById (snd (post_2fa_disable stub db0 1 ''123456'')) 1 =
     Some (alice\<lparr>securitySettings :=
             \<lparr>twoFactorEnabled = False, twoFactorSecret = None,
              twoFactorBackupCodes = None\<rparr>\<rparr>)"
proof -
  have a: "findById db0 1 = Some alice"
    by (simp add: findById_def db0_def alice_def)
  have b: "twoFactorEnabled (securitySettings alice)"
    by (simp add: alice_def)
  have c: "decrypt2FASecret stub (twoFactorSecret (securitySettings alice)) = Some ''S1''"
    by (simp add: stub_def alice_def)
  have e: "verifyToken stub ''123456'' ''S1''"
    by (simp add: stub_def)
  show ?thesis
    using disable_accepted_clears_settings [OF a b c e] a b c e by simp
qed

section \<open>Confirming the enrolment\<close>

text \<open>
  C6, as stated, fails. \<^verbatim>\<open>POST /2fa/verify\<close> has no check of its own for a missing
  secret: it hands the stored field, present or \<^verbatim>\<open>undefined\<close>, to
  \<^verbatim>\<open>decrypt2FASecret\<close>. With a codec that returns a value for the absent field, the user
  with a stored secret and the user who never ran setup receive the same answer, 400
  \<^verbatim>\<open>Invalid verification code\<close>. With a codec that throws on the absent field, the
  answer is the 500 \<^verbatim>\<open>Server error\<close> of the \<^verbatim>\<open>catch\<close> block, the same answer as for a
  stored secret that does not decrypt. In neither case is there an error that tells the
  missing secret apart.
\<close>

theorem verify_no_secret_not_told_apart:
  "twoFactorSecret (securitySettings alice) = Some ''#S1'' \<and>
   twoFactorSecret (securitySettings bob) = None \<and>
   fst (post_2fa_verify lenient db0 1 ''000000'') = (400, Message ''Invalid verification code'') \<and>
   fst (post_2fa_verify lenient db0 2 ''000000'') = (400, Message ''Invalid verification code'') \<and>
   twoFactorSecret (securitySettings dave) = Some ''bad'' \<and>
   fst (post_2fa_verify stub [alice, bob, dave] 2 ''123456'') = (500, Message ''Server error'') \<and>
   fst (post_2fa_verify stub [alice, bob, dave] 3 ''123456'') = (500, Message ''Server error'')"
  by (simp add: post_2fa_verify_def findById_def db0_def alice_def bob_def dave_def
      stub_def lenient_def serverError_def)

text \<open>
  C6, amended. For a stored user, \<^verbatim>\<open>POST /2fa/verify\<close> answers by what
  \<^verbatim>\<open>decrypt2FASecret\<close> does with the stored field, whether a secret is stored or not:
  400 \<^verbatim>\<open>Invalid verification code\<close> when the call returns a secret that
  \<^verbatim>\<open>verifyToken\<close> rejects the submitted code for, and the 500 \<^verbatim>\<open>Server error\<close> of the
  \<^verbatim>\<open>catch\<close> block when the call throws. On every answer other than 200 the store is
  the one before the request, so \<^verbatim>\<open>twoFactorEnabled\<close> is not set.
\<close>

theorem verify_failure_modes:
  assumes found: "findById d i = Some u"
  shows "(\<forall>s. decrypt2FASecret h (twoFactorSecret (securitySettings u)) = Some s \<and>
              \<not> verifyToken h token s \<longrightarrow>
              post_2fa_verify h d i token = ((400, Message ''Invalid verification code''), d)) \<and>
         (decrypt2FASecret h (twoFactorSecret (securitySettings u)) = None \<longrightarrow>
              post_2fa_verify h d i token = ((500, Message ''Server error''), d)) \<and>
         (fst (fst (post_2fa_verify h d i token)) = 200 \<or>
          snd (post_2fa_verify h d i token) = d \<and>
          findById (snd (post_2fa_verify h d i token)) i = Some u)"
proof -
  have rejected: "post_2fa_verify h d i token = ((400, Message ''Invalid verification code''), d)"
    if "decrypt2FASecret h (twoFactorSecret (securitySettings u)) = Some s"
      and "\<not> verifyToken h token s" for s
    using that found by (simp add: post_2fa_verify_def)
  have thrown: "post_2fa_verify h d i token = ((500, Message ''Server error''), d)"
    if "decrypt2FASecret h (twoFactorSecret (securitySettings u)) = None"
    using that found by (simp add: post_2fa_verify_def serverError_def)
  have kept: "fst (fst (post_2fa_verify h d i token)) = 200 \<or>
      snd (post_2fa_verify h d i token) = d \<and>
      findById (snd (post_2fa_verify h d i token)) i = Some u"
    using found by (simp add: post_2fa_verify_def serverError_def split: option.splits)
  show ?thesis using rejected thrown kept by blast
qed

theorem verify_failure_modes_witness:
  "findById db0 1 = Some alice \<and>
   decrypt2FASecret stub (twoFactorSecret (securitySettings alice)) = Some ''S1'' \<and>
   \<not> verifyToken stub ''000000'' ''S1'' \<and>
   post_2fa_verify stub db0 1 ''000000'' = ((400, Message ''Invalid verification code''), db0) \<and>
   findById db0 2 = Some bob \<and>
   decrypt2FASecret stub (twoFactorSecret (securitySettings bob)) = None \<and>
   post_2fa_verify stub db0 2 ''123456'' = ((500, Message ''Server error''), db0) \<and>
   decrypt2FASecret lenient (twoFactorSecret (securitySettings bob)) = Some [] \<and>
   \<not> verifyToken lenient ''000000'' [] \<and>
   post_2fa_verify lenient db0 2 ''000000'' = ((400, Message ''Invalid verification code''), db0)"
proof -
  have a: "findById db0 1 = Some alice" by (simp add: findById_def db0_def alice_def)
  have s: "decrypt2FASecret stub (twoFactorSecret (securitySettings alice)) = Some ''S1''"
    by (simp add: stub_def alice_def)
  have i: "\<not> verifyToken stub ''000000'' ''S1''" by (simp add: stub_def)
  have b: "findById db0 2 = Some bob" by (simp add: findById_def db0_def alice_def bob_def)
  have n: "decrypt2FASecret stub (twoFactorSecret (securitySettings bob)) = None"
    by (simp add: stub_def bob_def)
  have l: "decrypt2FASecret lenient (twoFactorSecret (securitySettings bob)) = Some []"
    by (simp add: lenient_def bob_def)
  have j: "\<not> verifyToken lenient ''000000'' []" by (simp add: lenient_def stub_def)
  show ?thesis
    using verify_failure_modes [OF a, of stub "''000000''"]
      verify_failure_modes [OF b, of stub "''123456''"]
      verify_failure_modes [OF b, of lenient "''000000''"] a s i b n l j
    by simp
qed

section \<open>The second factor alone opens a session\<close>

lemma findOne_map:
  assumes "\<And>v. email (f v) = email v"
  shows "findOne (map f d) e = map_option f (findOne d e)"
  unfolding findOne_def using assms by (induction d) auto

text \<open>
  C10. \<^verbatim>\<open>POST /2fa/validate\<close> and \<^verbatim>\<open>POST /2fa/backup\<close> take an email and a code, stand
  behind no \<^verbatim>\<open>auth\<close> middleware, and the store keeps no record that a login challenge
  was issued. For a user with 2FA enabled, a code that \<^verbatim>\<open>verifyToken\<close> accepts for the
  decrypted secret, or a code among the stored backup codes, is answered with the
  session response and its signed token, in any store, whatever requests came before.
  Neither response depends on the stored passwords: replacing them all leaves both
  responses as they are.
\<close>

theorem second_factor_alone_grants_session:
  assumes found: "findOne d em = Some u"
    and enabled: "twoFactorEnabled (securitySettings u)"
  shows "(decrypt2FASecret h (twoFactorSecret (securitySettings u)) = Some s \<and>
          verifyToken h token s \<longrightarrow>
            post_2fa_validate h d em token =
              ((200, Session (jwt_sign h (uid u)) (summary u)), d) \<and>
            fst (post_2fa_validate h (map (\<lambda>v. v\<lparr>password := g v\<rparr>) d) em token) =
              fst (post_2fa_validate h d em token)) \<and>
         (twoFactorBackupCodes (securitySettings u) = Some cs \<and> c \<in> set cs \<longrightarrow>
            fst (post_2fa_backup h d em c) = (200, Session (jwt_sign h (uid u)) (summary u)) \<and>
            fst (post_2fa_backup h (map (\<lambda>v. v\<lparr>password := g v\<rparr>) d) em c) =
              fst (post_2fa_backup h d em c))"
proof -
  let ?f = "\<lambda>v. v\<lparr>password := g v\<rparr>"
  have found': "findOne (map ?f d) em = Some (?f u)"
    using found by (simp add: findOne_map)
  have totp: "post_2fa_validate h d em token =
                ((200, Session (jwt_sign h (uid u)) (summary u)), d) \<and>
              fst (post_2fa_validate h (map ?f d) em token) =
                fst (post_2fa_validate h d em token)"
    if "decrypt2FASecret h (twoFactorSecret (securitySettings u)) = Some s"
      and "verifyToken h token s"
    using that found found' enabled
    by (simp add: post_2fa_validate_def sessionFor_def summary_def)
  have code: "fst (post_2fa_backup h d em c) = (200, Session (jwt_sign h (uid u)) (summary u)) \<and>
              fst (post_2fa_backup h (map ?f d) em c) = fst (post_2fa_backup h d em c)"
    if "twoFactorBackupCodes (securitySettings u) = Some cs" and "c \<in> set cs"
    using that found found' enabled
    by (simp add: post_2fa_backup_def Let_def sessionFor_def summary_def)
  show ?thesis using totp code by blast
qed

theorem second_factor_alone_grants_session_witness:
  "findOne db0 ''alice@example.com'' = Some alice \<and> twoFactorEnabled (securitySettings alice) \<and>
   decrypt2FASecret stub (twoFactorSecret (securitySettings alice)) = Some ''S1'' \<and>
   verifyToken stub ''123456'' ''S1'' \<and>
   twoFactorBackupCodes (securitySettings alice) = Some [''c1'', ''c2'', ''c3''] \<and>
   ''c3'' \<in> set [''c1'', ''c2'', ''c3''] \<and>
   token_of (snd (fst (post_2fa_validate stub db0 ''alice@example.com'' ''123456''))) = Some ''jwt'' \<and>
   token_of (snd (fst (post_2fa_backup stub db0 ''alice@example.com'' ''c3''))) = Some ''jwt''"
proof -
  have a: "findOne db0 ''alice@example.com'' = Some alice"
    by (simp add: findOne_def db0_def alice_def)
  have b: "twoFactorEnabled (securitySettings alice)" by (simp add: alice_def)
  have c: "decrypt2FASecret stub (twoFactorSecret (securitySettings alice)) = Some ''S1''"
    by (simp add: stub_def alice_def)
  have e: "verifyToken stub ''123456'' ''S1''" by (simp add: stub_def)
  have k: "twoFactorBackupCodes (securitySettings alice) = Some [''c1'', ''c2'', ''c3'']"
    by (simp add: alice_def)
  have m: "''c3'' \<in> set [''c1'', ''c2'', ''c3'']" by simp
  have j: "jwt_sign stub (uid alice) = ''jwt''" by (simp add: stub_def)
  show ?thesis
    using second_factor_alone_grants_session [OF a b, of stub "''S1''" "''123456''" _ "[''c1'', ''c2'', ''c3'']" "''c3''"]
      a b c e k j by simp
qed

section \<open>Failure messages of the two unauthenticated 2FA routes\<close>

text \<open>
  C7, as stated, fails. \<^verbatim>\<open>POST /2fa/backup\<close> for an email with no user record is
  answered \<^verbatim>\<open>Invalid request\<close>, and for a user with 2FA enabled and a code that is not
  among the stored ones it is answered \<^verbatim>\<open>Invalid backup code\<close>: two failing requests
  with different message texts.
\<close>

theorem wrong_code_text_differs:
  "message_of (snd (fst (post_2fa_backup stub db0 ''carol@example.com'' ''zz''))) = Some ''Invalid request'' \<and>
   message_of (snd (fst (post_2fa_backup stub db0 ''alice@example.com'' ''zz''))) = Some ''Invalid backup code'' \<and>
   message_of (snd (fst (post_2fa_backup stub db0 ''carol@example.com'' ''zz''))) \<noteq>
   message_of (snd (fst (post_2fa_backup stub db0 ''alice@example.com'' ''zz'')))"
  by (simp add: post_2fa_backup_def findOne_def db0_def alice_def bob_def)

text \<open>
  C7, amended. On both routes a request that fails because no user has the email and
  one that fails because the user has 2FA turned off receive the same response, 400
  \<^verbatim>\<open>Invalid request\<close>, and the two routes agree on it. A request for a user with 2FA
  enabled that fails on the code is answered with another text: 400
  \<^verbatim>\<open>Invalid verification code\<close> on \<^verbatim>\<open>/2fa/validate\<close> when the secret decrypts and
  \<^verbatim>\<open>verifyToken\<close> rejects the code, 400 \<^verbatim>\<open>Invalid backup code\<close> on \<^verbatim>\<open>/2fa/backup\<close> when
  the code is not among the stored ones.
\<close>

theorem failure_messages:
  assumes missing: "findOne d e1 = None"
    and off: "findOne d e2 = Some u2" "\<not> twoFactorEnabled (securitySettings u2)"
    and on: "findOne d e3 = Some u3" "twoFactorEnabled (securitySettings u3)"
    and secret: "decrypt2FASecret h (twoFactorSecret (securitySettings u3)) = Some s"
    and invalid: "\<not> verifyToken h t3 s"
    and codes: "twoFactorBackupCodes (securitySettings u3) = Some cs"
    and wrong: "c3 \<notin> set cs"
  shows "post_2fa_validate h d e1 t1 = ((400, Message ''Invalid request''), d) \<and>
         post_2fa_validate h d e2 t2 = ((400, Message ''Invalid request''), d) \<and>
         post_2fa_backup h d e1 c1 = ((400, Message ''Invalid request''), d) \<and>
         post_2fa_backup h d e2 c2 = ((400, Message ''Invalid request''), d) \<and>
         post_2fa_validate h d e3 t3 = ((400, Message ''Invalid verification code''), d) \<and>
         post_2fa_backup h d e3 c3 = ((400, Message ''Invalid backup code''), d)"
  using assms by (simp add: post_2fa_validate_def post_2fa_backup_def)

theorem failure_messages_witness:
  "findOne db0 ''carol@example.com'' = None \<and>
   findOne db0 ''bob@example.com'' = Some bob \<and> \<not> twoFactorEnabled (securitySettings bob) \<and>
   findOne db0 ''alice@example.com'' = Some alice \<and> twoFactorEnabled (securitySettings alice) \<and>
   decrypt2FASecret stub (twoFactorSecret (securitySettings alice)) = Some ''S1'' \<and>
   \<not> verifyToken stub ''000000'' ''S1'' \<and>
   twoFactorBackupCodes (securitySettings alice) = Some [''c1'', ''c2'', ''c3''] \<and>
   ''zz'' \<notin> set [''c1'', ''c2'', ''c3''] \<and>
   post_2fa_validate stub db0 ''carol@example.com'' ''000000'' =
     post_2fa_backup stub db0 ''bob@example.com'' ''zz'' \<and>
   post_2fa_validate stub db0 ''alice@example.com'' ''000000'' =
     ((400, Message ''Invalid verification code''), db0)"
proof -
  have m: "findOne db0 ''carol@example.com'' = None"
    by (simp add: findOne_def db0_def alice_def bob_def)
  have b: "findOne db0 ''bob@example.com'' = Some bob"
    by (simp add: findOne_def db0_def alice_def bob_def)
  have boff: "\<not> twoFactorEnabled (securitySettings bob)" by (simp add: bob_def)
  have a: "findOne db0 ''alice@example.com'' = Some alice"
    by (simp add: findOne_def db0_def alice_def)
  have aon: "twoFactorEnabled (securitySettings alice)" by (simp add: alice_def)
  have s: "decrypt2FASecret stub (twoFactorSecret (securitySettings alice)) = Some ''S1''"
    by (simp add: stub_def alice_def)
  have i: "\<not> verifyToken stub ''000000'' ''S1''" by (simp add: stub_def)
  have k: "twoFactorBackupCodes (securitySettings alice) = Some [''c1'', ''c2'', ''c3'']"
    by (simp add: alice_def)
  have w: "''zz'' \<notin> set [''c1'', ''c2'', ''c3'']" by simp
  show ?thesis
    using failure_messages [OF m b boff a aon s i k w, of "''000000''" "''zz''" "''zz''" "''zz''"]
      m b boff a aon s i k
    by simp
qed

section \<open>Enrolment\<close>

lemma route_effect:
  assumes "route h d r = (resp, d')"
  shows "d' = d \<or>
         (\<exists>v w. v \<in> set d \<and> uid w = uid v \<and> d' = save d w \<and>
            (twoFactorEnabled (securitySettings w) \<longrightarrow>
               twoFactorEnabled (securitySettings v) \<or>
               (\<exists>tok. r = Verify (uid v) tok \<and> resp = (200, Message ''2FA enabled successfully''))))"
proof (cases r)
  case (Login em pw)
  then show ?thesis using assms
    by (auto simp: post_login_def split: option.splits if_splits)
next
  case (Setup j)
  show ?thesis
  proof (cases "findById d j")
    case None
    then show ?thesis using assms Setup by (simp add: post_2fa_setup_def)
  next
    case (Some v)
    define w where "w = v\<lparr>securitySettings := (securitySettings v)
        \<lparr>twoFactorSecret := Some (encrypt2FASecret h (fst (generateSecret h (email v)))),
         twoFactorBackupCodes := Some (generateBackupCodes h)\<rparr>\<rparr>"
    have "d' = save d w"
      using assms Setup Some by (auto simp: post_2fa_setup_def w_def Let_def split: prod.splits)
    moreover have "v \<in> set d" using Some by (rule findById_mem)
    ultimately show ?thesis by (intro disjI2 exI[of _ v] exI[of _ w]) (simp add: w_def)
  qed
next
  case (Verify j tok)
  show ?thesis
  proof (cases "findById d j")
    case None
    then show ?thesis using assms Verify by (simp add: post_2fa_verify_def)
  next
    case (Some v)
    define w where "w = v\<lparr>securitySettings := (securitySettings v)\<lparr>twoFactorEnabled := True\<rparr>\<rparr>"
    have "uid v = j" using Some by (rule findById_uid)
    moreover have "v \<in> set d" using Some by (rule findById_mem)
    moreover have "d' = d \<or> (d' = save d w \<and> resp = (200, Message ''2FA enabled successfully''))"
      using assms Verify Some
      by (auto simp: post_2fa_verify_def w_def split: option.splits if_splits)
    ultimately show ?thesis using Verify
      by (elim disjE) (simp, intro disjI2 exI[of _ v] exI[of _ w], simp add: w_def)
  qed
next
  case (Validate em tok)
  then show ?thesis using assms
    by (auto simp: post_2fa_validate_def split: option.splits if_splits)
next
  case (Disable j tok)
  show ?thesis
  proof (cases "findById d j")
    case None
    then show ?thesis using assms Disable by (simp add: post_2fa_disable_def)
  next
    case (Some v)
    define w where "w = v\<lparr>securitySettings := (securitySettings v)
        \<lparr>twoFactorEnabled := False, twoFactorSecret := None, twoFactorBackupCodes := None\<rparr>\<rparr>"
    have "v \<in> set d" using Some by (rule findById_mem)
    moreover have "d' = d \<or> d' = save d w"
      using assms Disable Some
      by (auto simp: post_2fa_disable_def w_def split: option.splits if_splits)
    ultimately show ?thesis
      by (elim disjE) (simp, intro disjI2 exI[of _ v] exI[of _ w], simp add: w_def)
  qed
next
  case (Backup em c)
  show ?thesis
  proof (cases "findOne d em")
    case None
    then show ?thesis using assms Backup by (simp add: post_2fa_backup_def)
  next
    case (Some v)
    define w where "w = v\<lparr>securitySettings := (securitySettings v)
        \<lparr>twoFactorBackupCodes :=
           Some (filter (\<lambda>code. code \<noteq> c) (the (twoFactorBackupCodes (securitySettings v))))\<rparr>\<rparr>"
    have "v \<in> set d" using Some by (rule findOne_mem)
    moreover have "d' = d \<or> d' = save d w"
      using assms Backup Some
      by (auto simp: post_2fa_backup_def w_def Let_def split: option.splits if_splits)
    ultimately show ?thesis
      by (elim disjE) (simp, intro disjI2 exI[of _ v] exI[of _ w], simp add: w_def)
  qed
qed

lemma flag_turned_on:
  assumes ids: "distinct (map uid d)"
    and found: "findById d i = Some u"
    and off: "\<not> twoFactorEnabled (securitySettings u)"
    and step: "route h d r = (resp, d')"
    and found': "findById d' i = Some u'"
    and on: "twoFactorEnabled (securitySettings u')"
  shows "\<exists>tok. r = Verify i tok \<and> resp = (200, Message ''2FA enabled successfully'')"
proof -
  from route_effect [OF step] consider "d' = d"
    | v w where "v \<in> set d" "uid w = uid v" "d' = save d w"
        "twoFactorEnabled (securitySettings w) \<longrightarrow>
           twoFactorEnabled (securitySettings v) \<or>
           (\<exists>tok. r = Verify (uid v) tok \<and> resp = (200, Message ''2FA enabled successfully''))"
    by blast
  then show ?thesis
  proof cases
    case 1
    then show ?thesis using found found' off on by simp
  next
    case 2
    show ?thesis
    proof (cases "uid w = i")
      case True
      have "u' = w" using found found' 2(3) True by (simp add: findById_save)
      moreover have "v = u"
        using ids 2(1) findById_mem [OF found] findById_uid [OF found] 2(2) True
        by (auto intro: distinct_uid_eq)
      ultimately show ?thesis using 2(2,4) True off on by auto
    next
      case False
      then have "u' = u" using found found' 2(3) by (simp add: findById_save)
      then show ?thesis using off on by simp
    qed
  qed
qed

text \<open>
  C2, as stated, fails for a user in the state Enabled: \<^verbatim>\<open>POST /2fa/setup\<close> assigns
  \<^verbatim>\<open>twoFactorSecret\<close> and \<^verbatim>\<open>twoFactorBackupCodes\<close> and never \<^verbatim>\<open>twoFactorEnabled\<close>, so
  the new secret and codes are stored with \<^verbatim>\<open>twoFactorEnabled\<close> still true.
\<close>

theorem setup_on_enabled_user:
  "findById db0 1 = Some alice \<and> twoFactorEnabled (securitySettings alice) \<and>
   fst (post_2fa_setup stub db0 1) =
     (200, SetupResult ''qr'' [''n1'', ''n2'', ''n3'', ''n4'', ''n5'', ''n6'', ''n7'', ''n8''] ''S2'') \<and>
   findById (snd (post_2fa_setup stub db0 1)) 1 =
     Some (alice\<lparr>securitySettings :=
       \<lparr>twoFactorEnabled = True, twoFactorSecret = Some ''#S2'',
        twoFactorBackupCodes =
          Some [''n1'', ''n2'', ''n3'', ''n4'', ''n5'', ''n6'', ''n7'', ''n8'']\<rparr>\<rparr>) \<and>
   twoFactorEnabled (securitySettings (the (findById (snd (post_2fa_setup stub db0 1)) 1))) \<noteq> False"
  by (simp add: post_2fa_setup_def findById_def save_def db0_def alice_def bob_def stub_def Let_def)

text \<open>
  C2, amended. For a stored user in any prior 2FA state, \<^verbatim>\<open>POST /2fa/setup\<close> answers
  200 with the QR code, the backup codes and the secret, and the stored user then has
  the encrypted new secret, the new backup codes, and \<^verbatim>\<open>twoFactorEnabled\<close> as it was
  before: false stays false (Disabled, Pending) and true stays true (Enabled). Where
  the identifiers of the store are distinct, a request that finds the flag of a user
  false and leaves it true is a \<^verbatim>\<open>POST /2fa/verify\<close> by that user answered
  \<^verbatim>\<open>2FA enabled successfully\<close>.
\<close>

theorem setup_keeps_enabled_flag:
  assumes found: "findById d i = Some u"
  shows "fst (post_2fa_setup h d i) =
           (200, SetupResult (generateQRCode h (snd (generateSecret h (email u))))
                   (generateBackupCodes h) (fst (generateSecret h (email u)))) \<and>
         findById (snd (post_2fa_setup h d i)) i =
           Some (u\<lparr>securitySettings :=
             \<lparr>twoFactorEnabled = twoFactorEnabled (securitySettings u),
              twoFactorSecret = Some (encrypt2FASecret h (fst (generateSecret h (email u)))),
              twoFactorBackupCodes = Some (generateBackupCodes h)\<rparr>\<rparr>) \<and>
         (\<forall>r resp d' u'.
            distinct (map uid d) \<and> \<not> twoFactorEnabled (securitySettings u) \<and>
            route h d r = (resp, d') \<and> findById d' i = Some u' \<and>
            twoFactorEnabled (securitySettings u') \<longrightarrow>
            (\<exists>tok. r = Verify i tok \<and> resp = (200, Message ''2FA enabled successfully'')))"
proof -
  define u' where "u' = u\<lparr>securitySettings := (securitySettings u)
      \<lparr>twoFactorSecret := Some (encrypt2FASecret h (fst (generateSecret h (email u)))),
       twoFactorBackupCodes := Some (generateBackupCodes h)\<rparr>\<rparr>"
  have run: "post_2fa_setup h d i =
      ((200, SetupResult (generateQRCode h (snd (generateSecret h (email u))))
               (generateBackupCodes h) (fst (generateSecret h (email u)))), save d u')"
    using found by (simp add: post_2fa_setup_def u'_def Let_def split: prod.splits)
  have "uid u = i" using found by (rule findById_uid)
  then have stored: "findById (save d u') i = Some u'"
    using found by (simp add: findById_save u'_def)
  have only: "\<exists>tok. r = Verify i tok \<and> resp = (200, Message ''2FA enabled successfully'')"
    if "distinct (map uid d)" "\<not> twoFactorEnabled (securitySettings u)"
      "route h d r = (resp, d')" "findById d' i = Some v" "twoFactorEnabled (securitySettings v)"
    for r resp d' v
    using that(1) found that(2-5) by (rule flag_turned_on)
  have response: "fst (post_2fa_setup h d i) =
           (200, SetupResult (generateQRCode h (snd (generateSecret h (email u))))
                   (generateBackupCodes h) (fst (generateSecret h (email u))))"
    using run by simp
  have settings: "findById (snd (post_2fa_setup h d i)) i =
           Some (u\<lparr>securitySettings :=
             \<lparr>twoFactorEnabled = twoFactorEnabled (securitySettings u),
              twoFactorSecret = Some (encrypt2FASecret h (fst (generateSecret h (email u)))),
              twoFactorBackupCodes = Some (generateBackupCodes h)\<rparr>\<rparr>)"
    using run stored by (simp add: u'_def)
  have flag: "\<forall>r resp d' u'.
            distinct (map uid d) \<and> \<not> twoFactorEnabled (securitySettings u) \<and>
            route h d r = (resp, d') \<and> findById d' i = Some u' \<and>
            twoFactorEnabled (securitySettings u') \<longrightarrow>
            (\<exists>tok. r = Verify i tok \<and> resp = (200, Message ''2FA enabled successfully''))"
    using only by blast
  show ?thesis by (intro conjI response settings flag)
qed

theorem setup_keeps_enabled_flag_witness:
  "findById db0 2 = Some bob \<and> \<not> twoFactorEnabled (securitySettings bob) \<and>
   findById (snd (post_2fa_setup stub db0 2)) 2 =
     Some (bob\<lparr>securitySettings :=
       \<lparr>twoFactorEnabled = False, twoFactorSecret = Some ''#S2'',
        twoFactorBackupCodes =
          Some [''n1'', ''n2'', ''n3'', ''n4'', ''n5'', ''n6'', ''n7'', ''n8'']\<rparr>\<rparr>) \<and>
   distinct (map uid (snd (post_2fa_setup stub db0 2))) \<and>
   fst (route stub (snd (post_2fa_setup stub db0 2)) (Verify 2 ''123456'')) =
     (200, Message ''2FA enabled successfully'') \<and>
   twoFactorEnabled (securitySettings (the (findById
     (snd (route stub (snd (post_2fa_setup stub db0 2)) (Verify 2 ''123456''))) 2)))"
proof -
  have b: "findById db0 2 = Some bob"
    by (simp add: findById_def db0_def alice_def bob_def)
  have off: "\<not> twoFactorEnabled (securitySettings bob)" by (simp add: bob_def)
  have gen: "fst (generateSecret stub (email bob)) = ''S2''"
      "encrypt2FASecret stub ''S2'' = ''#S2''"
      "generateBackupCodes stub = [''n1'', ''n2'', ''n3'', ''n4'', ''n5'', ''n6'', ''n7'', ''n8'']"
    by (simp_all add: stub_def)
  have ids: "distinct (map uid (snd (post_2fa_setup stub db0 2)))"
    by (simp add: post_2fa_setup_def findById_def save_def db0_def alice_def bob_def stub_def Let_def)
  have ver: "route stub (snd (post_2fa_setup stub db0 2)) (Verify 2 ''123456'') =
      ((200, Message ''2FA enabled successfully''),
       [alice, bob\<lparr>securitySettings :=
         \<lparr>twoFactorEnabled = True, twoFactorSecret = Some ''#S2'',
          twoFactorBackupCodes =
            Some [''n1'', ''n2'', ''n3'', ''n4'', ''n5'', ''n6'', ''n7'', ''n8'']\<rparr>\<rparr>])"
    by (simp add: post_2fa_setup_def post_2fa_verify_def findById_def save_def db0_def
        alice_def bob_def stub_def Let_def)
  have on: "twoFactorEnabled (securitySettings (the (findById
     (snd (route stub (snd (post_2fa_setup stub db0 2)) (Verify 2 ''123456''))) 2)))"
    unfolding ver by (simp add: findById_def alice_def bob_def)
  show ?thesis
    using setup_keeps_enabled_flag [OF b, of stub] b off gen ids ver on by simp
qed

section \<open>The acceptance window of the TOTP verifier\<close>

lemma counter_mono: "a \<le> b \<Longrightarrow> counter a \<le> counter b"
  unfolding counter_def stepSeconds_def by (rule zdiv_mono1) simp_all

lemma counter_shift: "counter (t + 30 * k) = counter t + k"
  unfolding counter_def stepSeconds_def by simp

lemma counter_same_or_next: "counter (t + 29) = counter t \<or> counter (t + 29) = counter t + 1"
proof -
  have "counter t \<le> counter (t + 29)" by (rule counter_mono) simp
  moreover have "counter (t + 29) \<le> counter (t + 30 * 1)" by (rule counter_mono) simp
  ultimately show ?thesis unfolding counter_shift by linarith
qed

lemma counter_same_or_previous: "counter (t - 29) = counter t \<or> counter (t - 29) = counter t - 1"
proof -
  have "counter (t - 29) \<le> counter t" by (rule counter_mono) simp
  moreover have "counter (t + 30 * (- 1)) \<le> counter (t - 29)" by (rule counter_mono) simp
  ultimately show ?thesis unfolding counter_shift by linarith
qed

lemma counter_two_or_three_later:
  "counter (t + 61) = counter t + 2 \<or> counter (t + 61) = counter t + 3"
proof -
  have "counter (t + 30 * 2) \<le> counter (t + 61)" by (rule counter_mono) simp
  moreover have "counter (t + 61) \<le> counter (t + 30 * 3)" by (rule counter_mono) simp
  ultimately show ?thesis unfolding counter_shift by linarith
qed

lemma verify_matches_window:
  assumes "verify f code secret atTime"
  shows "code = f secret (counter atTime - 1) \<or> code = f secret (counter atTime) \<or>
         code = f secret (counter atTime + 1)"
proof (rule ccontr)
  assume "\<not> ?thesis"
  then have "filter (\<lambda>c. f secret c = code) (window atTime) = []"
    by (auto simp: window_def)
  then show False using assms by (simp add: verify_def)
qed

text \<open>
  C9, as stated, fails: a code is compared by its text, and a keyed function may give
  two counters the same code. With \<open>two_codes\<close>, whose codes repeat every two counters,
  the code of the step containing time 0 is the code of counter 2 as well, and it is
  accepted at time 61.
\<close>

theorem stale_code_accepted:
  "code_at two_codes ''S1'' 0 = two_codes ''S1'' (counter 61) \<and>
   verify two_codes (code_at two_codes ''S1'' 0) ''S1'' (0 + 61)"
  by (simp add: verify_def window_def code_at_def counter_def stepSeconds_def two_codes_def)

text \<open>
  C9, amended. Let \<open>k\<close> be the counter of the time step containing \<open>t\<close>. When the code
  of \<open>k\<close> differs from the codes of the six counters \<open>k - 2\<close>, \<open>k - 1\<close>, \<open>k + 1\<close>,
  \<open>k + 2\<close>, \<open>k + 3\<close> and \<open>k + 4\<close> (the others that are checked at the four times), the
  code is accepted at \<open>t\<close>, at \<open>t + 29\<close> and at \<open>t - 29\<close>, and rejected at \<open>t + 61\<close>.
  With no condition at all, a code accepted at a time is the expected code of the
  current counter or of one of the two adjacent ones: no other counter is checked.
\<close>

theorem totp_window:
  "(code_at f secret t \<notin> set (map (f secret)
        [counter t - 2, counter t - 1, counter t + 1, counter t + 2, counter t + 3,
         counter t + 4]) \<longrightarrow>
      verify f (code_at f secret t) secret t \<and>
      verify f (code_at f secret t) secret (t + 29) \<and>
      verify f (code_at f secret t) secret (t - 29) \<and>
      \<not> verify f (code_at f secret t) secret (t + 61)) \<and>
   (\<forall>code atTime. verify f code secret atTime \<longrightarrow>
      code = f secret (counter atTime - 1) \<or> code = f secret (counter atTime) \<or>
      code = f secret (counter atTime + 1))"
proof -
  have four: "verify f (code_at f secret t) secret t \<and>
      verify f (code_at f secret t) secret (t + 29) \<and>
      verify f (code_at f secret t) secret (t - 29) \<and>
      \<not> verify f (code_at f secret t) secret (t + 61)"
    if "code_at f secret t \<notin> set (map (f secret)
        [counter t - 2, counter t - 1, counter t + 1, counter t + 2, counter t + 3,
         counter t + 4])"
  proof -
    define k where "k = counter t"
    have d: "f secret (k - 2) \<noteq> f secret k" "f secret (k - 1) \<noteq> f secret k"
      "f secret (k + 1) \<noteq> f secret k" "f secret (k + 2) \<noteq> f secret k"
      "f secret (k + 3) \<noteq> f secret k" "f secret (k + 4) \<noteq> f secret k"
      using that by (auto simp: code_at_def k_def)
    have P: "(f secret c = f secret k) = (c = k)" if "k - 2 \<le> c" "c \<le> k + 4" for c
    proof -
      from that have "c = k - 2 \<or> c = k - 1 \<or> c = k \<or> c = k + 1 \<or> c = k + 2 \<or>
          c = k + 3 \<or> c = k + 4"
        by arith
      then show ?thesis using d by auto
    qed
    have now: "verify f (f secret k) secret t"
      by (simp add: verify_def window_def k_def [symmetric] P)
    have "counter (t + 29) = k \<or> counter (t + 29) = k + 1"
      using counter_same_or_next [of t] by (simp add: k_def)
    then have later: "verify f (f secret k) secret (t + 29)"
      by (elim disjE) (simp_all add: verify_def window_def P)
    have "counter (t - 29) = k \<or> counter (t - 29) = k - 1"
      using counter_same_or_previous [of t] by (simp add: k_def)
    then have earlier: "verify f (f secret k) secret (t - 29)"
      by (elim disjE) (simp_all add: verify_def window_def P)
    have "counter (t + 61) = k + 2 \<or> counter (t + 61) = k + 3"
      using counter_two_or_three_later [of t] by (simp add: k_def)
    then have stale: "\<not> verify f (f secret k) secret (t + 61)"
      by (elim disjE) (simp_all add: verify_def window_def P)
    show ?thesis using now later earlier stale by (simp add: code_at_def k_def)
  qed
  have only: "\<forall>code atTime. verify f code secret atTime \<longrightarrow>
      code = f secret (counter atTime - 1) \<or> code = f secret (counter atTime) \<or>
      code = f secret (counter atTime + 1)"
    by (intro allI impI) (rule verify_matches_window)
  show ?thesis using four only by blast
qed

theorem totp_window_witness:
  "code_at ten_codes ''S1'' 1000 \<notin> set (map (ten_codes ''S1'')
      [counter 1000 - 2, counter 1000 - 1, counter 1000 + 1, counter 1000 + 2,
       counter 1000 + 3, counter 1000 + 4]) \<and>
   verify ten_codes (code_at ten_codes ''S1'' 1000) ''S1'' 1000 \<and>
   verify ten_codes (code_at ten_codes ''S1'' 1000) ''S1'' 1029 \<and>
   verify ten_codes (code_at ten_codes ''S1'' 1000) ''S1'' 971 \<and>
   \<not> verify ten_codes (code_at ten_codes ''S1'' 1000) ''S1'' 1061"
proof -
  have h: "code_at ten_codes ''S1'' 1000 \<notin> set (map (ten_codes ''S1'')
      [counter 1000 - 2, counter 1000 - 1, counter 1000 + 1, counter 1000 + 2,
       counter 1000 + 3, counter 1000 + 4])"
    by (simp add: code_at_def counter_def stepSeconds_def ten_codes_def eval_nat_numeral)
  show ?thesis
    using totp_window [of ten_codes "''S1''" 1000] h by simp
qed

end
